theory Spec2Isabelle
  imports Main "HOL-Library.Sublist" "HOL-Library.AList" "HOL-Library.Product_Lexorder"
begin

section \<open>Strings\<close>

text \<open>
  A Python \<open>str\<close> is modelled as a \<open>string\<close>; a \<open>char\<close> stands for one code point
  below 256. The character classes are the ones CPython uses on that range:
  \<open>[A-Z]\<close> is the 26 ASCII capitals, \<open>\d\<close> the ten ASCII digits (the only decimal
  digits below 256), and \<open>\s\<close>, \<open>str.strip()\<close> and \<open>str.split()\<close> share one
  whitespace class: TAB, LF, VT, FF, CR, the separators FS, GS, RS, US, the space,
  NEL (0x85) and the no-break space (0xA0).
\<close>

definition upper_chars :: string where
  "upper_chars = ''ABCDEFGHIJKLMNOPQRSTUVWXYZ''"

definition digit_chars :: string where
  "digit_chars = ''0123456789''"

definition space_chars :: string where
  "space_chars = [CHR 0x09, CHR 0x0A, CHR 0x0B, CHR 0x0C, CHR 0x0D,
                  CHR 0x1C, CHR 0x1D, CHR 0x1E, CHR 0x1F, CHR '' '',
                  CHR 0x85, CHR 0xA0]"

definition is_upper :: "char \<Rightarrow> bool" where
  "is_upper c = (c \<in> set upper_chars)"

definition is_digit :: "char \<Rightarrow> bool" where
  "is_digit c = (c \<in> set digit_chars)"

definition is_space :: "char \<Rightarrow> bool" where
  "is_space c = (c \<in> set space_chars)"

text \<open>\<open>s.rstrip(chars)\<close>: drop the longest suffix made of characters of \<open>chars\<close>.\<close>

definition rstrip :: "string \<Rightarrow> string \<Rightarrow> string" where
  "rstrip chars s = rev (dropWhile (\<lambda>c. c \<in> set chars) (rev s))"

text \<open>\<open>s.strip()\<close>: drop leading and trailing whitespace.\<close>

definition strip :: "string \<Rightarrow> string" where
  "strip s = rev (dropWhile is_space (rev (dropWhile is_space s)))"

text \<open>\<open>s.replace(" ", "")\<close>: delete every space character.\<close>

definition remove_spaces :: "string \<Rightarrow> string" where
  "remove_spaces s = filter (\<lambda>c. c \<noteq> CHR '' '') s"

text \<open>
  \<open>s.split()\<close>: the maximal runs of non-whitespace characters, left to right.
  \<open>split_from cur s\<close> scans \<open>s\<close> with the token \<open>cur\<close> collected so far.
\<close>

fun split_from :: "string \<Rightarrow> string \<Rightarrow> string list" where
  "split_from cur [] = (if cur = [] then [] else [cur])"
| "split_from cur (c # cs) =
     (if is_space c then (if cur = [] then split_from [] cs else cur # split_from [] cs)
      else split_from (cur @ [c]) cs)"

definition split :: "string \<Rightarrow> string list" where
  "split s = split_from [] s"

text \<open>\<open>sep.join(parts)\<close>.\<close>

fun join :: "string \<Rightarrow> string list \<Rightarrow> string" where
  "join sep [] = []"
| "join sep [p] = p"
| "join sep (p # q # ps) = p @ sep @ join sep (q # ps)"

section \<open>Prerequisite extraction and course-code normalisation\<close>

text \<open>
  \<open>clean_prereq\<close> is \<open>re.findall(r'[A-Z]{3}\s\d{4}', prerequisites)\<close>. The pattern has
  no alternative and a fixed length of eight, so a match attempt at a position only
  looks at the next eight characters (\<open>prereq_match\<close>); \<open>findall\<close> scans from the left,
  emits a match and resumes after it, or moves on by one character.
\<close>

fun prereq_match :: "string \<Rightarrow> bool" where
  "prereq_match (a # b # c # w # d1 # d2 # d3 # d4 # rest) =
     (is_upper a \<and> is_upper b \<and> is_upper c \<and> is_space w \<and>
      is_digit d1 \<and> is_digit d2 \<and> is_digit d3 \<and> is_digit d4)"
| "prereq_match _ = False"

function clean_prereq :: "string \<Rightarrow> string list" where
  "clean_prereq [] = []"
| "clean_prereq (c # cs) =
     (if prereq_match (c # cs) then take 8 (c # cs) # clean_prereq (drop 8 (c # cs))
      else clean_prereq cs)"
  by pat_completeness auto
termination
  by (relation "measure length") auto

text \<open>\<open>format_course_code(course) = course[:3] + '\n' + course[3:]\<close>.\<close>

definition format_course_code :: "string \<Rightarrow> string" where
  "format_course_code course = take 3 course @ [CHR 0x0A] @ drop 3 course"

text \<open>
  The two normalisations of \<open>build_graph_for_all_majors\<close> (and of \<open>generate_a_list\<close>):
  a course's own code loses its trailing capitals and spaces before it is formatted,
  an extracted prerequisite loses its spaces.
\<close>

definition section_chars :: string where
  "section_chars = ''ABCDEFGHIJKLMNOPQRSTUVWXYZ ''"

definition normalize_code :: "string \<Rightarrow> string" where
  "normalize_code code = format_course_code (rstrip section_chars code)"

definition normalize_prereq :: "string \<Rightarrow> string" where
  "normalize_prereq prereq = format_course_code (rstrip '' '' (remove_spaces prereq))"

text \<open>
  The shape "three capitals, one separator, four digits" as a predicate on a whole
  string, with the class of the separator left open: \<open>code_shape is_space\<close> is the
  shape with any whitespace character as separator, \<open>code_shape is_blank\<close> the shape
  with the space character itself.
\<close>

fun code_shape :: "(char \<Rightarrow> bool) \<Rightarrow> string \<Rightarrow> bool" where
  "code_shape sep [a, b, c, w, d1, d2, d3, d4] =
     (is_upper a \<and> is_upper b \<and> is_upper c \<and> sep w \<and>
      is_digit d1 \<and> is_digit d2 \<and> is_digit d3 \<and> is_digit d4)"
| "code_shape sep _ = False"

definition is_blank :: "char \<Rightarrow> bool" where
  "is_blank c = (c = CHR '' '')"

section \<open>Course records\<close>

text \<open>
  A course record as the JSON files hold it, with the fields the server reads. The
  server reads \<open>code\<close> by subscript and every other field with \<open>.get(field, default)\<close>;
  an absent field is represented here by that default (the empty string, the empty
  list), which is all the server can observe of it.
\<close>

record instructor =
  inst_name :: string

record course_section =
  deptName :: string
  instructors :: "instructor list"

record course =
  code :: string
  codeWithSpace :: string
  name :: string
  description :: string
  prerequisites :: string
  sections :: "course_section list"

section \<open>Directed graphs\<close>

text \<open>
  \<open>networkx.DiGraph\<close> keeps an insertion-ordered dictionary from each node to the
  insertion-ordered dictionary of its successors. A graph is modelled as that
  adjacency structure: an association list from each node to the list of its
  successors. \<open>G.nodes()\<close> lists the keys, \<open>G.edges()\<close> lists, node by node, the pairs of
  a node with each of its successors. \<open>add_node\<close> appends a node that is not there yet;
  \<open>add_edge u v\<close> adds \<open>u\<close>, then \<open>v\<close>, then records \<open>v\<close> among the successors of \<open>u\<close>.
\<close>

type_synonym digraph = "(string \<times> string list) list"

definition nodes :: "digraph \<Rightarrow> string list" where
  "nodes G = map fst G"

definition edges :: "digraph \<Rightarrow> (string \<times> string) list" where
  "edges G = concat (map (\<lambda>(u, vs). map (Pair u) vs) G)"

definition add_node :: "string \<Rightarrow> digraph \<Rightarrow> digraph" where
  "add_node n G = (if n \<in> set (nodes G) then G else G @ [(n, [])])"

definition add_succ :: "string \<Rightarrow> string \<Rightarrow> string \<times> string list \<Rightarrow> string \<times> string list" where
  "add_succ u v e =
     (if fst e = u then (fst e, if v \<in> set (snd e) then snd e else snd e @ [v]) else e)"

definition add_edge :: "string \<Rightarrow> string \<Rightarrow> digraph \<Rightarrow> digraph" where
  "add_edge u v G = map (add_succ u v) (add_node v (add_node u G))"

section \<open>The prerequisite graph builder\<close>

text \<open>
  \<open>build_graph_for_all_majors\<close>. Python dictionaries keep insertion order and an
  assignment to an existing key keeps the key's place, which is \<open>AList.update\<close> on an
  association list. The three loops of the source are the three folds below:
  \<open>code_dept_map\<close> and \<open>code_prereq_map\<close> (one pass over the records, a later record
  with the same code overwriting an earlier one), \<open>major_courses_map\<close>
  (\<open>setdefault(dept, []).append(code)\<close>), and the graphs, one per department.
\<close>

definition dept_of :: "course \<Rightarrow> string" where
  "dept_of c = (case sections c of [] \<Rightarrow> [] | s # _ \<Rightarrow> deptName s)"

definition code_dept_map :: "course list \<Rightarrow> (string \<times> string) list" where
  "code_dept_map all_courses =
     fold (\<lambda>c m. AList.update (code c) (dept_of c) m) all_courses []"

definition code_prereq_map :: "course list \<Rightarrow> (string \<times> string) list" where
  "code_prereq_map all_courses =
     fold (\<lambda>c m. AList.update (code c) (prerequisites c) m) all_courses []"

definition major_courses_map :: "(string \<times> string) list \<Rightarrow> (string \<times> string list) list" where
  "major_courses_map cdm =
     fold (\<lambda>(cd, dept) m.
            AList.update dept ((case map_of m dept of None \<Rightarrow> [] | Some cs \<Rightarrow> cs) @ [cd]) m)
       cdm []"

text \<open>
  \<open>code_prereq_map[code]\<close>. The subscript would raise \<open>KeyError\<close> on a missing key; the
  codes it is applied to are keys of \<open>code_dept_map\<close>, which has the same keys (lemma
  \<open>code_prereq_map_defined\<close> below), so the \<open>None\<close> branch is never taken.
\<close>

definition prereq_of :: "(string \<times> string) list \<Rightarrow> string \<Rightarrow> string" where
  "prereq_of cpm cd = (case map_of cpm cd of Some p \<Rightarrow> p | None \<Rightarrow> [])"

definition add_prereq_edges :: "string \<Rightarrow> string list \<Rightarrow> digraph \<Rightarrow> digraph" where
  "add_prereq_edges course_fmt prereq_list G =
     fold (\<lambda>prereq G. let pre_fmt = normalize_prereq prereq
                        in if course_fmt \<noteq> pre_fmt then add_edge pre_fmt course_fmt G else G)
       prereq_list G"

definition graph_for_codes :: "(string \<times> string) list \<Rightarrow> string list \<Rightarrow> digraph" where
  "graph_for_codes cpm codes =
     fold (\<lambda>cd G. add_prereq_edges (normalize_code cd) (clean_prereq (prereq_of cpm cd)) G)
       codes []"

definition build_graph_for_all_majors :: "course list \<Rightarrow> (string \<times> digraph) list" where
  "build_graph_for_all_majors all_courses =
     (let cdm = code_dept_map all_courses;
          cpm = code_prereq_map all_courses;
          mcm = major_courses_map cdm
      in fold (\<lambda>(dept, codes) graphs. AList.update dept (graph_for_codes cpm codes) graphs)
           mcm [])"

section \<open>The search index and the search request\<close>

text \<open>
  The ways \<open>get_courses\<close> ends without a result: the explicit response with status
  400, "Missing 'year' or 'term' in request body", and an exception that the handler
  does not catch, which Flask answers with status 500. The exceptions are those of the
  \<open>sqlite3\<close> module: \<open>OperationalError\<close> and \<open>DatabaseError\<close> with their message,
  \<open>ValueError\<close> for a database name with a NUL character, and \<open>OverflowError\<close> for an
  integer parameter outside the signed 64-bit range.
\<close>

datatype exn =
  OperationalError string | DatabaseError string | ValueError string | OverflowError string

datatype error = MissingYearOrTerm | Uncaught exn

definition status_code :: "error \<Rightarrow> nat" where
  "status_code e = (case e of MissingYearOrTerm \<Rightarrow> 400 | Uncaught _ \<Rightarrow> 500)"

text \<open>
  A row of the table \<open>courses_fts\<close>: the five indexed columns and the unindexed
  \<open>json_data\<close>, the serialised course record, which \<open>get_courses\<close> parses back
  (\<open>json.loads\<close> of \<open>json.dumps\<close>, modelled as the record itself).
\<close>

record fts_row =
  col_code :: string
  col_codeWithSpace :: string
  col_name :: string
  col_description :: string
  col_instructors :: string
  json_data :: course

text \<open>
  SQLite's FTS5 is not part of the repository; it is a parameter of the model. Given
  the query string and the rows of the table, an engine returns the rows that
  \<open>MATCH\<close> the query, each with its \<open>bm25\<close> score (any linearly ordered type), in the
  order the table scan delivers them, or the message of the \<open>OperationalError\<close> it
  raises on a query it cannot parse. The theorems hold for every engine.

  The file system is a parameter too: it gives, for every database name, what
  \<open>sqlite3\<close> finds there. \<open>Table rows\<close> is a database with the table \<open>courses_fts\<close>;
  \<open>NoTable\<close> is a file that does not exist yet or holds no such table
  (\<open>sqlite3.connect\<close> creates an empty database for a new name, so the two cannot be
  told apart by a query); \<open>Unusable e\<close> is a name on which opening the database, or the
  first statement run on it, raises the exception \<open>e\<close> ("unable to open database file"
  for a name with a directory that does not exist or a name that is too long, "file is
  not a database" for a file of another kind).
\<close>

type_synonym 'r fts5 = "string \<Rightarrow> fts_row list \<Rightarrow> string + (fts_row \<times> 'r) list"

datatype db_file = Unusable exn | NoTable | Table "fts_row list"

type_synonym databases = "string \<Rightarrow> db_file"

definition db_name :: "string \<Rightarrow> string \<Rightarrow> string" where
  "db_name y t = ''courses_'' @ y @ ''_'' @ t @ ''.db''"

text \<open>
  \<open>get_connection\<close> is \<open>sqlite3.connect(db_name)\<close>: it raises \<open>ValueError\<close> on a name
  with a NUL character before it looks at the file system, and the exception of an
  unusable name. A connection is modelled by what a statement finds behind it: the
  rows of \<open>courses_fts\<close>, or \<open>None\<close> when there is no such table.
\<close>

definition get_connection :: "databases \<Rightarrow> string \<Rightarrow> exn + fts_row list option" where
  "get_connection dbs db =
     (if CHR 0x00 \<in> set db then Inl (ValueError ''embedded null byte'')
      else (case dbs db of
              Unusable e \<Rightarrow> Inl e
            | NoTable \<Rightarrow> Inr None
            | Table rows \<Rightarrow> Inr (Some rows)))"

definition row_of_course :: "course \<Rightarrow> fts_row" where
  "row_of_course c =
     \<lparr>col_code = code c, col_codeWithSpace = codeWithSpace c, col_name = name c,
      col_description = description c,
      col_instructors = join '' '' (map inst_name (concat (map instructors (sections c)))),
      json_data = c\<rparr>"

text \<open>
  \<open>init_db_for_file\<close>, for the year and term parsed from the file name: the table is
  created if it is not there, and filled from the file only when it has no row. An
  exception of \<open>get_connection\<close> ends the start-up.
\<close>

definition init_db_for_file ::
  "string \<Rightarrow> string \<Rightarrow> course list \<Rightarrow> databases \<Rightarrow> exn + databases" where
  "init_db_for_file y t all_courses dbs =
     (case get_connection dbs (db_name y t) of
        Inl e \<Rightarrow> Inl e
      | Inr conn \<Rightarrow>
          (let rows = (case conn of None \<Rightarrow> [] | Some rs \<Rightarrow> rs)
           in Inr (dbs(db_name y t :=
                   Table (if length rows = 0 then map row_of_course all_courses else rows)))))"

text \<open>
  The query of \<open>get_courses\<close>. \<open>top_sort\<close> is the \<open>CASE\<close> expression; \<open>ORDER BY top_sort,
  rank\<close> is a sort on the pair, taken to be deterministic and to leave rows with equal
  keys in the order of the scan (\<open>sort_key\<close> is stable); \<open>LIMIT\<close> and \<open>OFFSET\<close> follow
  SQLite: a negative limit is no limit, a negative offset is zero. The statement is
  prepared, then its parameters are bound, then it runs: \<open>sqlite3\<close> binds an integer as
  a signed 64-bit value and raises \<open>OverflowError\<close> on any other, before the engine
  sees the query. So \<open>select_rows\<close> checks the range of limit and offset first, and
  \<open>limit_offset\<close> is only ever applied to values in that range.
\<close>

definition exact_match :: "string \<Rightarrow> fts_row \<Rightarrow> bool" where
  "exact_match exactSearch r = (col_codeWithSpace r = exactSearch \<or> col_code r = exactSearch)"

definition top_sort :: "string \<Rightarrow> fts_row \<Rightarrow> nat" where
  "top_sort exactSearch r = (if exact_match exactSearch r then 0 else 1)"

definition in_int64 :: "int \<Rightarrow> bool" where
  "in_int64 n = (- (2 ^ 63) \<le> n \<and> n < 2 ^ 63)"

definition limit_offset :: "int \<Rightarrow> int \<Rightarrow> 'a list \<Rightarrow> 'a list" where
  "limit_offset lim off xs =
     (let ys = drop (nat off) xs in if lim < 0 then ys else take (nat lim) ys)"

definition select_rows ::
  "('r::linorder) fts5 \<Rightarrow> fts_row list \<Rightarrow> string \<Rightarrow> string \<Rightarrow> int \<Rightarrow> int
     \<Rightarrow> exn + (fts_row \<times> 'r) list" where
  "select_rows fts tbl exactSearch ftsQuery lim off =
     (if in_int64 lim \<and> in_int64 off then
        (case fts ftsQuery tbl of
           Inl msg \<Rightarrow> Inl (OperationalError msg)
         | Inr hits \<Rightarrow>
             Inr (limit_offset lim off
                    (sort_key (\<lambda>(r, rank). (top_sort exactSearch r, rank)) hits)))
      else Inl (OverflowError ''Python int too large to convert to SQLite INTEGER''))"

text \<open>
  The JSON body of a search request; \<open>None\<close> is an absent key, for which \<open>data.get\<close>
  returns its default.
\<close>

record request =
  searchTerm :: "string option"
  itemsPerPage :: "int option"
  startFrom :: "int option"
  year :: "string option"
  termName :: "string option"

definition fts_query_of :: "string \<Rightarrow> string" where
  "fts_query_of s = join '' '' (map (\<lambda>t. t @ ''*'') (split s))"

text \<open>
  \<open>get_courses\<close>, in the order of the source: the phrase is stripped, year and term
  are checked for truth (present and not empty), the stripped phrase is checked for
  emptiness, and only then is the database of the term opened and queried. A database
  without the table makes the statement fail when it is prepared ("no such table"),
  before anything is bound.
\<close>

definition get_courses :: "('r::linorder) fts5 \<Rightarrow> databases \<Rightarrow> request \<Rightarrow> error + course list" where
  "get_courses fts dbs data =
     (let phrase = strip (case searchTerm data of None \<Rightarrow> [] | Some s \<Rightarrow> s);
          lim = (case itemsPerPage data of None \<Rightarrow> 20 | Some n \<Rightarrow> n);
          off = (case startFrom data of None \<Rightarrow> 0 | Some n \<Rightarrow> n)
      in case year data of
           None \<Rightarrow> Inl MissingYearOrTerm
         | Some y \<Rightarrow>
            (case termName data of
               None \<Rightarrow> Inl MissingYearOrTerm
             | Some t \<Rightarrow>
                if y = [] \<or> t = [] then Inl MissingYearOrTerm
                else if phrase = [] then Inr []
                else (case get_connection dbs (db_name y t) of
                        Inl e \<Rightarrow> Inl (Uncaught e)
                      | Inr None \<Rightarrow>
                          Inl (Uncaught (OperationalError ''no such table: courses_fts''))
                      | Inr (Some tbl) \<Rightarrow>
                         (case select_rows fts tbl phrase (fts_query_of phrase) lim off of
                            Inl e \<Rightarrow> Inl (Uncaught e)
                          | Inr rows \<Rightarrow> Inr (map (json_data \<circ> fst) rows)))))"

definition phrase_of :: "request \<Rightarrow> string" where
  "phrase_of data = strip (case searchTerm data of None \<Rightarrow> [] | Some s \<Rightarrow> s)"

definition limit_of :: "request \<Rightarrow> int" where
  "limit_of data = (case itemsPerPage data of None \<Rightarrow> 20 | Some n \<Rightarrow> n)"

definition offset_of :: "request \<Rightarrow> int" where
  "offset_of data = (case startFrom data of None \<Rightarrow> 0 | Some n \<Rightarrow> n)"

definition page_request :: "request \<Rightarrow> int \<Rightarrow> int \<Rightarrow> request" where
  "page_request data n k = data\<lparr>itemsPerPage := Some n, startFrom := Some k\<rparr>"

text \<open>A term has an index when its database can be opened and holds the table.\<close>

definition has_index :: "databases \<Rightarrow> string \<Rightarrow> bool" where
  "has_index dbs db = (case get_connection dbs db of Inr (Some _) \<Rightarrow> True | _ \<Rightarrow> False)"

section \<open>The stored graphs and the graph request\<close>

text \<open>
  The graphs are mutable objects shared through \<open>major_graph_map\<close>, so the model has an
  object store: a list of graphs, the address of a graph being its index, and
  \<open>major_graph_map\<close> maps a (year, term) pair and a department to an address. A new
  graph and a copy are allocated at the end of the store; \<open>G.add_node\<close> updates the
  store at the address of \<open>G\<close>.
\<close>

record server_state =
  store :: "digraph list"
  major_graph_map :: "string \<times> string \<Rightarrow> (string \<Rightarrow> nat option) option"

record rendering =
  out_nodes :: "(string \<times> string) list"
  out_edges :: "(string \<times> string) list"

definition new_DiGraph :: "digraph list \<Rightarrow> digraph list \<times> nat" where
  "new_DiGraph h = (h @ [[]], length h)"

definition copy_graph :: "nat \<Rightarrow> digraph list \<Rightarrow> digraph list \<times> nat" where
  "copy_graph a h = (h @ [h ! a], length h)"

definition add_node_at :: "nat \<Rightarrow> string \<Rightarrow> digraph list \<Rightarrow> digraph list" where
  "add_node_at a n h = h[a := add_node n (h ! a)]"

text \<open>
  The start-up loop \<open>major_graph_map[(year, term)] = build_graph_for_all_majors(all_courses)\<close>,
  for one term: each graph of the term gets an address of its own.
\<close>

definition initial_state :: server_state where
  "initial_state = \<lparr>store = [], major_graph_map = Map.empty\<rparr>"

definition load_term :: "string \<times> string \<Rightarrow> course list \<Rightarrow> server_state \<Rightarrow> server_state" where
  "load_term key all_courses st =
     (let graphs = build_graph_for_all_majors all_courses;
          base = length (store st)
      in \<lparr>store = store st @ map snd graphs,
          major_graph_map = (major_graph_map st)
            (key \<mapsto> map_of (zip (map fst graphs) [base ..< base + length graphs]))\<rparr>)"

text \<open>\<open>major_graph_map.get((year, term), {})\<close>, for a year and a term that may be absent.\<close>

definition lookup_major_graphs ::
  "server_state \<Rightarrow> string option \<Rightarrow> string option \<Rightarrow> string \<Rightarrow> nat option" where
  "lookup_major_graphs st y t =
     (case y of None \<Rightarrow> Map.empty
      | Some y' \<Rightarrow> (case t of None \<Rightarrow> Map.empty
          | Some t' \<Rightarrow> (case major_graph_map st (y', t') of None \<Rightarrow> Map.empty | Some m \<Rightarrow> m)))"

text \<open>
  \<open>generate_a_list\<close>. The source allocates a graph on entry (\<open>G = nx.DiGraph()\<close>) and
  another as the default argument of \<open>major_graphs.get\<close>, which Python evaluates
  whether or not the department is found; the copy of the base graph is a third new
  object, and it alone is updated.
\<close>

definition generate_a_list ::
  "server_state \<Rightarrow> string \<Rightarrow> string list \<Rightarrow> string option \<Rightarrow> string option
     \<Rightarrow> server_state \<times> rendering" where
  "generate_a_list st selected_major taken_courses y t =
     (let (h1, g0) = new_DiGraph (store st);
          formatted_taken_courses = map normalize_code taken_courses;
          major_graphs = lookup_major_graphs st y t;
          (h2, dflt) = new_DiGraph h1;
          base_graph = (case major_graphs selected_major of None \<Rightarrow> dflt | Some a \<Rightarrow> a);
          (h3, g) = copy_graph base_graph h2;
          h4 = fold (add_node_at g) formatted_taken_courses h3;
          ns = map (\<lambda>n. (n, if n \<in> set formatted_taken_courses then ''selected''
                              else ''not_selected'')) (nodes (h4 ! g));
          es = edges (h4 ! g)
      in (st\<lparr>store := h4\<rparr>, \<lparr>out_nodes = ns, out_edges = es\<rparr>))"

text \<open>
  A state is valid when every address in \<open>major_graph_map\<close> is allocated; the initial
  state is, and \<open>load_term\<close> and \<open>generate_a_list\<close> keep it so. \<open>stored_graph\<close> is what a
  request can see of the state: the graph stored for the department, or the empty graph.
  \<open>render\<close> is the rendering as a function of that graph.
\<close>

definition valid_state :: "server_state \<Rightarrow> bool" where
  "valid_state st =
     (\<forall>k m d a. major_graph_map st k = Some m \<and> m d = Some a \<longrightarrow> a < length (store st))"

definition stored_graph ::
  "server_state \<Rightarrow> string option \<Rightarrow> string option \<Rightarrow> string \<Rightarrow> digraph" where
  "stored_graph st y t dept =
     (case lookup_major_graphs st y t dept of None \<Rightarrow> [] | Some a \<Rightarrow> store st ! a)"

definition render :: "digraph \<Rightarrow> string list \<Rightarrow> rendering" where
  "render base taken_courses =
     (let formatted = map normalize_code taken_courses;
          G = fold add_node formatted base
      in \<lparr>out_nodes = map (\<lambda>n. (n, if n \<in> set formatted then ''selected'' else ''not_selected''))
                         (nodes G),
          out_edges = edges G\<rparr>)"

text \<open>Two views of a graph used in the statements below.\<close>

definition endpoints :: "digraph \<Rightarrow> string set" where
  "endpoints G = fst ` set (edges G) \<union> snd ` set (edges G)"

definition course_edges :: "(string \<times> string) list \<Rightarrow> string \<Rightarrow> (string \<times> string) set" where
  "course_edges cpm cd =
     {(normalize_prereq p, normalize_code cd) | p.
        p \<in> set (clean_prereq (prereq_of cpm cd)) \<and> normalize_prereq p \<noteq> normalize_code cd}"

section \<open>Example data\<close>

definition mk_course :: "string \<Rightarrow> string \<Rightarrow> string \<Rightarrow> string \<Rightarrow> course" where
  "mk_course cd descr pre dept =
     \<lparr>code = cd, codeWithSpace = take 3 cd @ '' '' @ drop 3 cd, name = [], description = descr,
      prerequisites = pre, sections = [\<lparr>deptName = dept, instructors = []\<rparr>]\<rparr>"

definition example_courses :: "course list" where
  "example_courses =
     [mk_course ''COP3502C'' ''Programming Fundamentals 1'' ''None'' ''CISE'',
      mk_course ''COP3503'' ''Programming 2'' ''COP 3502 and MAC 2311 with C'' ''CISE'',
      mk_course ''MAC2311'' ''Calculus'' ''MAC 1147'' ''Math'']"

text \<open>
  A stand-in for the FTS5 engine in the examples: every row matches, and the score of
  a row is the length of its description.
\<close>

definition example_fts :: "nat fts5" where
  "example_fts q tbl = Inr (map (\<lambda>r. (r, length (col_description r))) tbl)"

text \<open>The databases after the start-up on the example file, from an empty directory.\<close>

definition example_dbs :: databases where
  "example_dbs =
     (\<lambda>_. NoTable)(db_name ''25'' ''fall'' := Table (map row_of_course example_courses))"

definition example_request :: "string \<Rightarrow> string \<Rightarrow> string \<Rightarrow> request" where
  "example_request y t p =
     \<lparr>searchTerm = Some p, itemsPerPage = Some 20, startFrom = Some 0,
      year = Some y, termName = Some t\<rparr>"

definition example_state :: server_state where
  "example_state = load_term (''25'', ''fall'') example_courses initial_state"



section \<open>Facts about strings and extraction\<close>

lemmas char_class_defs =
  is_upper_def is_digit_def is_space_def is_blank_def
  upper_chars_def digit_chars_def space_chars_def

lemma upper_not_space: "is_upper c \<Longrightarrow> \<not> is_space c"
  by (auto simp: is_upper_def is_space_def upper_chars_def space_chars_def)

lemma upper_not_digit: "is_upper c \<Longrightarrow> \<not> is_digit c"
  by (auto simp: is_upper_def is_digit_def upper_chars_def digit_chars_def)

lemma blank_is_space: "is_blank c \<Longrightarrow> is_space c"
  by (simp add: is_blank_def is_space_def space_chars_def)

lemma prereq_match_cases:
  assumes "prereq_match s"
  obtains a b c w d1 d2 d3 d4 rest where
    "s = a # b # c # w # d1 # d2 # d3 # d4 # rest"
    "is_upper a" "is_upper b" "is_upper c" "is_space w"
    "is_digit d1" "is_digit d2" "is_digit d3" "is_digit d4"
  using assms by (cases s rule: prereq_match.cases) auto

lemma code_shape_cases:
  assumes "code_shape sep t"
  obtains a b c w d1 d2 d3 d4 where
    "t = [a, b, c, w, d1, d2, d3, d4]"
    "is_upper a" "is_upper b" "is_upper c" "sep w"
    "is_digit d1" "is_digit d2" "is_digit d3" "is_digit d4"
  using assms by (cases "(sep, t)" rule: code_shape.cases) auto

lemma prereq_match_take8: "prereq_match s \<Longrightarrow> code_shape is_space (take 8 s)"
  by (erule prereq_match_cases) simp

lemma code_shape_match:
  "code_shape is_space t \<Longrightarrow> prereq_match (t @ ss) \<and> take 8 (t @ ss) = t"
  by (erule code_shape_cases) simp

lemma code_shape_blank_space: "code_shape is_blank t \<Longrightarrow> code_shape is_space t"
  by (erule code_shape_cases) (simp add: blank_is_space)

text \<open>
  Two occurrences of the pattern never overlap: the classes of capitals, whitespace
  and digits are pairwise disjoint, and a second occurrence starting one to seven
  characters after the first would need a capital where the first has its separator or
  a digit. So resuming after a match skips no occurrence.
\<close>

lemma no_overlap:
  assumes "prereq_match s" and "prereq_match (drop i s)" and "0 < i"
  shows "8 \<le> i"
proof (rule ccontr)
  assume "\<not> 8 \<le> i"
  with \<open>0 < i\<close> consider "i = 1" | "i = 2" | "i = 3" | "i = 4" | "i = 5" | "i = 6" | "i = 7"
    by linarith
  then show False
  proof cases
    case 1 with assms(1,2) show ?thesis
      by (elim prereq_match_cases) (auto dest: upper_not_space upper_not_digit)
  next
    case 2 with assms(1,2) show ?thesis
      by (elim prereq_match_cases) (auto simp: numeral_2_eq_2 dest: upper_not_space upper_not_digit)
  next
    case 3 with assms(1,2) show ?thesis
      by (elim prereq_match_cases) (auto simp: numeral_3_eq_3 dest: upper_not_space upper_not_digit)
  next
    case 4 with assms(1,2) show ?thesis
      by (elim prereq_match_cases) (auto simp: eval_nat_numeral dest: upper_not_space upper_not_digit)
  next
    case 5 with assms(1,2) show ?thesis
      by (elim prereq_match_cases) (auto simp: eval_nat_numeral dest: upper_not_space upper_not_digit)
  next
    case 6 with assms(1,2) show ?thesis
      by (elim prereq_match_cases) (auto simp: eval_nat_numeral dest: upper_not_space upper_not_digit)
  next
    case 7 with assms(1,2) show ?thesis
      by (elim prereq_match_cases) (auto simp: eval_nat_numeral dest: upper_not_space upper_not_digit)
  qed
qed

lemma clean_prereq_sound:
  "t \<in> set (clean_prereq s) \<Longrightarrow> sublist t s \<and> code_shape is_space t"
proof (induction s rule: clean_prereq.induct)
  case 1
  then show ?case by simp
next
  case (2 c cs)
  show ?case
  proof (cases "prereq_match (c # cs)")
    case True
    with "2.prems" consider "t = take 8 (c # cs)" | "t \<in> set (clean_prereq (drop 8 (c # cs)))"
      by auto
    then show ?thesis
    proof cases
      case 1
      moreover have "sublist (take 8 (c # cs)) (c # cs)" by (rule sublist_take)
      ultimately show ?thesis using prereq_match_take8 [OF True] by (simp only:)
    next
      case 2
      with "2.IH"(1) True have "sublist t (drop 8 (c # cs))" and "code_shape is_space t"
        by simp_all
      moreover have "sublist (drop 8 (c # cs)) (c # cs)" by (rule sublist_drop)
      ultimately show ?thesis by (blast intro: sublist_order.order.trans)
    qed
  next
    case False
    with "2.prems" "2.IH"(2) have "sublist t cs \<and> code_shape is_space t" by simp
    then show ?thesis by (auto simp: sublist_Cons_right)
  qed
qed

lemma clean_prereq_complete:
  "prereq_match (drop i s) \<Longrightarrow> take 8 (drop i s) \<in> set (clean_prereq s)"
proof (induction s arbitrary: i rule: clean_prereq.induct)
  case 1
  then show ?case by simp
next
  case (2 c cs)
  show ?case
  proof (cases i)
    case 0
    with "2.prems" show ?thesis by simp
  next
    case (Suc j)
    show ?thesis
    proof (cases "prereq_match (c # cs)")
      case True
      from no_overlap [OF True "2.prems"] Suc have "8 \<le> i" by simp
      then obtain k where k: "i = 8 + k" using le_Suc_ex by blast
      then have dr: "drop i (c # cs) = drop k (drop 8 (c # cs))"
        by (metis add.commute drop_drop)
      with "2.prems" have "prereq_match (drop k (drop 8 (c # cs)))" by simp
      from "2.IH"(1) [OF True this] dr True show ?thesis by simp
    next
      case False
      from "2.prems" Suc have "prereq_match (drop j cs)" by simp
      from "2.IH"(2) [OF False this] False Suc show ?thesis by simp
    qed
  qed
qed

lemma clean_prereq_occurrence:
  assumes "sublist t s" and "code_shape is_space t"
  shows "t \<in> set (clean_prereq s)"
proof -
  from assms(1) obtain ps ss where "s = ps @ t @ ss" by (auto simp: sublist_def)
  then have "drop (length ps) s = t @ ss" by simp
  with code_shape_match [OF assms(2), of ss] clean_prereq_complete [of "length ps" s]
  show ?thesis by simp
qed

lemma length_format_course_code: "length (format_course_code s) = Suc (length s)"
  by (simp add: format_course_code_def)

lemma rstrip_idem: "rstrip chars (rstrip chars s) = rstrip chars s"
  by (simp add: rstrip_def)

lemma rstrip_fixed:
  assumes "s \<noteq> []" and "last s \<notin> set chars"
  shows "rstrip chars s = s"
proof -
  from assms have "rev s \<noteq> []" and "hd (rev s) \<notin> set chars" by (simp_all add: hd_rev)
  then have "dropWhile (\<lambda>c. c \<in> set chars) (rev s) = rev s"
    by (cases "rev s") simp_all
  then show ?thesis by (simp add: rstrip_def)
qed

lemma last_rstrip:
  assumes "rstrip chars s \<noteq> []"
  shows "last (rstrip chars s) \<notin> set chars"
proof -
  from assms have ne: "dropWhile (\<lambda>c. c \<in> set chars) (rev s) \<noteq> []"
    by (simp add: rstrip_def)
  then have "hd (dropWhile (\<lambda>c. c \<in> set chars) (rev s)) \<notin> set chars"
    using hd_dropWhile [of "\<lambda>c. c \<in> set chars" "rev s"] by simp
  with ne show ?thesis by (simp add: rstrip_def last_rev)
qed

lemma last_format_course_code:
  assumes "s = [] \<or> last s \<notin> set section_chars"
  shows "last (format_course_code s) \<notin> set section_chars"
proof (cases "drop 3 s = []")
  case True
  then show ?thesis by (simp add: format_course_code_def section_chars_def)
next
  case False
  then have "s \<noteq> []" by auto
  moreover from False have "last (format_course_code s) = last s"
    by (simp add: format_course_code_def)
  ultimately show ?thesis using assms by simp
qed

lemma rstrip_normalize_code:
  "rstrip section_chars (normalize_code c) = normalize_code c"
proof -
  let ?s = "rstrip section_chars c"
  have "?s = [] \<or> last ?s \<notin> set section_chars" using last_rstrip by blast
  then have "last (format_course_code ?s) \<notin> set section_chars"
    by (rule last_format_course_code)
  moreover have "format_course_code ?s \<noteq> []" by (simp add: format_course_code_def)
  ultimately show ?thesis unfolding normalize_code_def by (rule rstrip_fixed [rotated])
qed

section \<open>Facts about graphs and the builder\<close>

lemma set_edges: "set (edges G) = (\<Union>e\<in>set G. {fst e} \<times> set (snd e))"
  by (induction G) (auto simp: edges_def)

lemma set_nodes_add_node: "set (nodes (add_node n G)) = insert n (set (nodes G))"
  by (auto simp: add_node_def nodes_def)

lemma set_edges_add_node: "set (edges (add_node n G)) = set (edges G)"
  by (simp add: add_node_def set_edges)

lemma fst_add_succ: "fst (add_succ u v e) = fst e"
  by (simp add: add_succ_def)

lemma snd_add_succ:
  "set (snd (add_succ u v e)) = (if fst e = u then insert v (set (snd e)) else set (snd e))"
  by (auto simp: add_succ_def)

lemma set_nodes_add_edge: "set (nodes (add_edge u v G)) = insert u (insert v (set (nodes G)))"
proof -
  have "nodes (add_edge u v G) = nodes (add_node v (add_node u G))"
    by (simp add: add_edge_def nodes_def fst_add_succ comp_def)
  then show ?thesis by (auto simp: set_nodes_add_node)
qed

lemma set_edges_Cons: "set (edges (e # G)) = {fst e} \<times> set (snd e) \<union> set (edges G)"
  by (simp add: set_edges)

lemma add_succ_other: "fst e \<noteq> u \<Longrightarrow> add_succ u v e = e"
  by (simp add: add_succ_def)

lemma set_edges_link:
  "u \<in> set (nodes H) \<Longrightarrow> set (edges (map (add_succ u v) H)) = insert (u, v) (set (edges H))"
proof (induction H)
  case Nil
  then show ?case by (simp add: nodes_def)
next
  case (Cons e H)
  have step: "set (edges (map (add_succ u v) (e # H))) =
        {fst e} \<times> set (snd (add_succ u v e)) \<union> set (edges (map (add_succ u v) H))"
    by (simp add: set_edges_Cons fst_add_succ)
  show ?case
  proof (cases "u \<in> set (nodes H)")
    case True
    from Cons.IH [OF True] have "set (edges (map (add_succ u v) (e # H))) =
        {fst e} \<times> set (snd (add_succ u v e)) \<union> insert (u, v) (set (edges H))"
      by (simp only: step)
    also have "\<dots> = insert (u, v) ({fst e} \<times> set (snd e) \<union> set (edges H))"
      by (cases "fst e = u") (simp_all add: snd_add_succ)
    finally show ?thesis by (simp only: set_edges_Cons)
  next
    case False
    with Cons.prems have u: "fst e = u" by (simp add: nodes_def)
    from False have "\<forall>x \<in> set H. fst x \<noteq> u" by (auto simp: nodes_def)
    then have "map (add_succ u v) H = H"
      by (intro map_idI) (simp add: add_succ_other)
    with step have "set (edges (map (add_succ u v) (e # H))) =
        {fst e} \<times> set (snd (add_succ u v e)) \<union> set (edges H)"
      by simp
    also have "\<dots> = insert (u, v) ({fst e} \<times> set (snd e) \<union> set (edges H))"
      using u by (simp add: snd_add_succ)
    finally show ?thesis by (simp only: set_edges_Cons)
  qed
qed

lemma set_edges_add_edge: "set (edges (add_edge u v G)) = insert (u, v) (set (edges G))"
proof -
  have "u \<in> set (nodes (add_node v (add_node u G)))" by (simp add: set_nodes_add_node)
  from set_edges_link [OF this, of v] show ?thesis
    by (simp add: add_edge_def set_edges_add_node)
qed

lemma add_edge_endpoints:
  "set (nodes G) \<subseteq> endpoints G \<Longrightarrow> set (nodes (add_edge u v G)) \<subseteq> endpoints (add_edge u v G)"
  by (auto simp: endpoints_def set_nodes_add_edge set_edges_add_edge)

lemma set_edges_add_prereq_edges:
  "set (edges (add_prereq_edges cf ps G)) =
     set (edges G) \<union> {(normalize_prereq p, cf) | p. p \<in> set ps \<and> normalize_prereq p \<noteq> cf}"
proof (induction ps arbitrary: G)
  case Nil
  then show ?case by (simp add: add_prereq_edges_def)
next
  case (Cons p ps)
  have step: "add_prereq_edges cf (p # ps) G =
      add_prereq_edges cf ps (if cf \<noteq> normalize_prereq p then add_edge (normalize_prereq p) cf G else G)"
    by (simp add: add_prereq_edges_def Let_def)
  show ?case unfolding step Cons.IH by (auto simp: set_edges_add_edge)
qed

lemma add_prereq_edges_endpoints:
  "set (nodes G) \<subseteq> endpoints G \<Longrightarrow>
   set (nodes (add_prereq_edges cf ps G)) \<subseteq> endpoints (add_prereq_edges cf ps G)"
proof (induction ps arbitrary: G)
  case Nil
  then show ?case by (simp add: add_prereq_edges_def)
next
  case (Cons p ps)
  have step: "add_prereq_edges cf (p # ps) G =
      add_prereq_edges cf ps (if cf \<noteq> normalize_prereq p then add_edge (normalize_prereq p) cf G else G)"
    by (simp add: add_prereq_edges_def Let_def)
  show ?case unfolding step using Cons.prems by (intro Cons.IH) (simp add: add_edge_endpoints)
qed

lemma fold_course_edges:
  "set (edges (fold (\<lambda>cd G. add_prereq_edges (normalize_code cd) (clean_prereq (prereq_of cpm cd)) G)
                 codes G)) = set (edges G) \<union> (\<Union>cd\<in>set codes. course_edges cpm cd)"
  by (induction codes arbitrary: G) (auto simp: set_edges_add_prereq_edges course_edges_def)

lemma fold_course_endpoints:
  "set (nodes G) \<subseteq> endpoints G \<Longrightarrow>
   set (nodes (fold (\<lambda>cd G. add_prereq_edges (normalize_code cd) (clean_prereq (prereq_of cpm cd)) G)
                 codes G))
   \<subseteq> endpoints (fold (\<lambda>cd G. add_prereq_edges (normalize_code cd) (clean_prereq (prereq_of cpm cd)) G)
                 codes G)"
  by (induction codes arbitrary: G) (simp_all add: add_prereq_edges_endpoints)

lemma set_edges_graph_for_codes:
  "set (edges (graph_for_codes cpm codes)) = (\<Union>cd\<in>set codes. course_edges cpm cd)"
  unfolding graph_for_codes_def fold_course_edges by (simp add: edges_def)

lemma nodes_graph_for_codes:
  "set (nodes (graph_for_codes cpm codes)) \<subseteq> endpoints (graph_for_codes cpm codes)"
  unfolding graph_for_codes_def by (rule fold_course_endpoints) (simp add: nodes_def)

lemma set_update_subset: "set (AList.update k v al) \<subseteq> insert (k, v) (set al)"
  by (induction al) auto

lemma fold_graphs_mem:
  assumes "(dept, G) \<in> set (fold (\<lambda>(dept, codes) graphs.
              AList.update dept (graph_for_codes cpm codes) graphs) mcm acc)"
  shows "(dept, G) \<in> set acc \<or> (\<exists>codes. (dept, codes) \<in> set mcm \<and> G = graph_for_codes cpm codes)"
  using assms
proof (induction mcm arbitrary: acc)
  case Nil
  then show ?case by simp
next
  case (Cons x mcm)
  obtain d cs where x: "x = (d, cs)" by (cases x)
  from Cons.prems have "(dept, G) \<in> set (fold (\<lambda>(dept, codes) graphs.
      AList.update dept (graph_for_codes cpm codes) graphs) mcm
        (AList.update d (graph_for_codes cpm cs) acc))"
    by (simp add: x)
  from Cons.IH [OF this] set_update_subset [of d "graph_for_codes cpm cs" acc] show ?case
    by (auto simp: x)
qed

lemma fold_major_mem:
  assumes "(dept, codes) \<in> set (fold (\<lambda>(cd, dept) m.
            AList.update dept ((case map_of m dept of None \<Rightarrow> [] | Some cs \<Rightarrow> cs) @ [cd]) m) cdm acc)"
    and "cd \<in> set codes"
    and "\<forall>(d, cs) \<in> set acc. \<forall>c \<in> set cs. (c, d) \<in> S"
    and "set cdm \<subseteq> S"
  shows "(cd, dept) \<in> S"
  using assms
proof (induction cdm arbitrary: acc)
  case Nil
  then show ?case by auto
next
  case (Cons x cdm)
  obtain c d where x: "x = (c, d)" by (cases x)
  let ?old = "case map_of acc d of None \<Rightarrow> [] | Some cs \<Rightarrow> cs"
  let ?acc = "AList.update d (?old @ [c]) acc"
  have old: "\<forall>c' \<in> set ?old. (c', d) \<in> S"
  proof (cases "map_of acc d")
    case None
    then show ?thesis by simp
  next
    case (Some cs)
    then have "(d, cs) \<in> set acc" by (rule map_of_SomeD)
    with Cons.prems(3) Some show ?thesis by auto
  qed
  have "\<forall>(d', cs) \<in> set ?acc. \<forall>c' \<in> set cs. (c', d') \<in> S"
  proof (clarify)
    fix d' cs c' assume mem: "(d', cs) \<in> set ?acc" and c': "c' \<in> set cs"
    from mem set_update_subset [of d "?old @ [c]" acc]
    consider "(d', cs) = (d, ?old @ [c])" | "(d', cs) \<in> set acc" by blast
    then show "(c', d') \<in> S"
    proof cases
      case 1
      with c' old Cons.prems(4) show ?thesis by (auto simp: x)
    next
      case 2
      with c' Cons.prems(3) show ?thesis by blast
    qed
  qed
  moreover from Cons.prems(1) have "(dept, codes) \<in> set (fold (\<lambda>(cd, dept) m.
            AList.update dept ((case map_of m dept of None \<Rightarrow> [] | Some cs \<Rightarrow> cs) @ [cd]) m) cdm ?acc)"
    by (simp add: x)
  moreover from Cons.prems(4) have "set cdm \<subseteq> S" by simp
  ultimately show ?case using Cons.prems(2) by (intro Cons.IH [of ?acc])
qed

lemma major_courses_map_mem:
  "(dept, codes) \<in> set (major_courses_map cdm) \<Longrightarrow> cd \<in> set codes \<Longrightarrow> (cd, dept) \<in> set cdm"
  unfolding major_courses_map_def by (erule fold_major_mem [where S = "set cdm"]) simp_all

lemma map_of_fold_update:
  "map_of (fold (\<lambda>c m. AList.update (code c) (f c) m) cs []) k =
     map_option f (find (\<lambda>c. code c = k) (rev cs))"
  by (induction cs rule: rev_induct) (simp_all add: update_conv')

lemma distinct_fold_update:
  "distinct (map fst acc) \<Longrightarrow> distinct (map fst (fold (\<lambda>c m. AList.update (code c) (f c) m) cs acc))"
  by (induction cs arbitrary: acc) (simp_all add: distinct_update)

lemma find_Some_mem: "find P xs = Some x \<Longrightarrow> x \<in> set xs \<and> P x"
  by (induction xs) (auto split: if_splits)

lemma code_dept_map_mem:
  assumes "(cd, dept) \<in> set (code_dept_map all_courses)"
  shows "\<exists>c \<in> set all_courses. code c = cd \<and> dept_of c = dept \<and>
           prereq_of (code_prereq_map all_courses) cd = prerequisites c"
proof -
  have "distinct (map fst (code_dept_map all_courses))"
    unfolding code_dept_map_def by (rule distinct_fold_update) simp
  with assms have "map_of (code_dept_map all_courses) cd = Some dept" by simp
  then obtain c where c: "find (\<lambda>c. code c = cd) (rev all_courses) = Some c" and d: "dept_of c = dept"
    by (auto simp: code_dept_map_def map_of_fold_update)
  from c have "c \<in> set all_courses" and "code c = cd"
    using find_Some_mem [OF c] by simp_all
  moreover from c have "prereq_of (code_prereq_map all_courses) cd = prerequisites c"
    by (simp add: prereq_of_def code_prereq_map_def map_of_fold_update)
  ultimately show ?thesis using d by blast
qed

text \<open>The lookup in \<open>code_prereq_map\<close> never misses: both maps have the same keys.\<close>

lemma code_prereq_map_defined:
  "(cd, dept) \<in> set (code_dept_map all_courses) \<Longrightarrow>
   map_of (code_prereq_map all_courses) cd \<noteq> None"
proof -
  assume a: "(cd, dept) \<in> set (code_dept_map all_courses)"
  have "distinct (map fst (code_dept_map all_courses))"
    unfolding code_dept_map_def by (rule distinct_fold_update) simp
  with a have "map_of (code_dept_map all_courses) cd = Some dept" by simp
  then show ?thesis by (auto simp: code_dept_map_def code_prereq_map_def map_of_fold_update)
qed

lemma build_graph_mem:
  assumes "(dept, G) \<in> set (build_graph_for_all_majors all_courses)"
  obtains codes where "G = graph_for_codes (code_prereq_map all_courses) codes"
    and "\<forall>cd \<in> set codes. (cd, dept) \<in> set (code_dept_map all_courses)"
proof -
  from assms fold_graphs_mem [of dept G "code_prereq_map all_courses"
      "major_courses_map (code_dept_map all_courses)" "[]"]
  obtain codes where "(dept, codes) \<in> set (major_courses_map (code_dept_map all_courses))"
    and "G = graph_for_codes (code_prereq_map all_courses) codes"
    by (auto simp: build_graph_for_all_majors_def Let_def)
  with major_courses_map_mem that show ?thesis by blast
qed

lemma build_graph_edge:
  assumes "(dept, G) \<in> set (build_graph_for_all_majors all_courses)"
    and "(u, v) \<in> set (edges G)"
  shows "\<exists>c \<in> set all_courses. dept_of c = dept \<and> v = normalize_code (code c) \<and> u \<noteq> v \<and>
           (\<exists>p \<in> set (clean_prereq (prerequisites c)). u = normalize_prereq p)"
proof -
  from assms(1) obtain codes where G: "G = graph_for_codes (code_prereq_map all_courses) codes"
    and codes: "\<forall>cd \<in> set codes. (cd, dept) \<in> set (code_dept_map all_courses)"
    by (rule build_graph_mem)
  from assms(2) G obtain cd where cd: "cd \<in> set codes"
    and e: "(u, v) \<in> course_edges (code_prereq_map all_courses) cd"
    by (auto simp: set_edges_graph_for_codes)
  from codes cd have "(cd, dept) \<in> set (code_dept_map all_courses)" by blast
  from code_dept_map_mem [OF this] obtain c where "c \<in> set all_courses" "code c = cd"
    "dept_of c = dept" "prereq_of (code_prereq_map all_courses) cd = prerequisites c" by blast
  with e show ?thesis by (auto simp: course_edges_def)
qed

lemma build_graph_node:
  assumes "(dept, G) \<in> set (build_graph_for_all_majors all_courses)"
    and "n \<in> set (nodes G)"
  shows "\<exists>m. (n, m) \<in> set (edges G) \<or> (m, n) \<in> set (edges G)"
proof -
  from assms(1) obtain codes where G: "G = graph_for_codes (code_prereq_map all_courses) codes"
    by (rule build_graph_mem)
  with assms(2) nodes_graph_for_codes have "n \<in> endpoints G" by blast
  then show ?thesis by (force simp: endpoints_def)
qed

text \<open>
  Where the nodes and edges of a built graph come from: every edge runs from a
  prerequisite extracted from the prerequisites text of a course record of the
  department to the normalised code of that record, and every node is an end of an
  edge.
\<close>

lemma build_graph_nodes:
  "\<forall>(dept, G) \<in> set (build_graph_for_all_majors all_courses).
     (\<forall>n \<in> set (nodes G). \<exists>c \<in> set all_courses. dept_of c = dept \<and>
        (n = normalize_code (code c) \<or>
         (\<exists>p \<in> set (clean_prereq (prerequisites c)). n = normalize_prereq p))) \<and>
     (\<forall>(u, v) \<in> set (edges G). \<exists>c \<in> set all_courses. dept_of c = dept \<and>
        v = normalize_code (code c) \<and>
        (\<exists>p \<in> set (clean_prereq (prerequisites c)). u = normalize_prereq p))"
proof (intro ballI, clarify, intro conjI ballI)
  fix dept G n
  assume mem: "(dept, G) \<in> set (build_graph_for_all_majors all_courses)"
    and n: "n \<in> set (nodes G)"
  from build_graph_node [OF mem n] obtain m
    where "(n, m) \<in> set (edges G) \<or> (m, n) \<in> set (edges G)" ..
  then show "\<exists>c \<in> set all_courses. dept_of c = dept \<and>
        (n = normalize_code (code c) \<or>
         (\<exists>p \<in> set (clean_prereq (prerequisites c)). n = normalize_prereq p))"
  proof
    assume "(n, m) \<in> set (edges G)"
    from build_graph_edge [OF mem this] show ?thesis by blast
  next
    assume "(m, n) \<in> set (edges G)"
    from build_graph_edge [OF mem this] show ?thesis by blast
  qed
next
  fix dept G e
  assume mem: "(dept, G) \<in> set (build_graph_for_all_majors all_courses)"
    and e: "e \<in> set (edges G)"
  obtain u v where uv: "e = (u, v)" by (cases e)
  from build_graph_edge [OF mem e [unfolded uv]]
  show "case e of (u, v) \<Rightarrow> \<exists>c \<in> set all_courses. dept_of c = dept \<and>
        v = normalize_code (code c) \<and>
        (\<exists>p \<in> set (clean_prereq (prerequisites c)). u = normalize_prereq p)"
    unfolding uv by blast
qed

section \<open>Facts about search\<close>

lemma get_courses_query:
  assumes "year data = Some y" "termName data = Some t" "y \<noteq> []" "t \<noteq> []"
    and "phrase_of data \<noteq> []"
  shows "get_courses fts dbs data =
     (case get_connection dbs (db_name y t) of
        Inl e \<Rightarrow> Inl (Uncaught e)
      | Inr None \<Rightarrow> Inl (Uncaught (OperationalError ''no such table: courses_fts''))
      | Inr (Some tbl) \<Rightarrow>
          (case select_rows fts tbl (phrase_of data) (fts_query_of (phrase_of data))
                  (limit_of data) (offset_of data) of
             Inl e \<Rightarrow> Inl (Uncaught e)
           | Inr rows \<Rightarrow> Inr (map (json_data \<circ> fst) rows)))"
  using assms unfolding get_courses_def phrase_of_def limit_of_def offset_of_def Let_def
  by simp


lemma get_courses_blank:
  assumes "year data = Some y" "termName data = Some t" "y \<noteq> []" "t \<noteq> []"
    and "phrase_of data = []"
  shows "get_courses fts dbs data = Inr []"
  using assms by (simp add: get_courses_def phrase_of_def Let_def)

lemma get_courses_missing:
  "(get_courses fts dbs data = Inl MissingYearOrTerm) =
     (year data = None \<or> year data = Some [] \<or> termName data = None \<or> termName data = Some [])"
  by (auto simp: get_courses_def Let_def split: option.splits sum.splits)

lemma get_connection_Table:
  "CHR 0x00 \<notin> set db \<Longrightarrow> dbs db = Table rows \<Longrightarrow> get_connection dbs db = Inr (Some rows)"
  by (simp add: get_connection_def)

lemma get_connection_NoTable:
  "CHR 0x00 \<notin> set db \<Longrightarrow> dbs db = NoTable \<Longrightarrow> get_connection dbs db = Inr None"
  by (simp add: get_connection_def)

lemma get_connection_nul:
  "CHR 0x00 \<in> set db \<Longrightarrow> get_connection dbs db = Inl (ValueError ''embedded null byte'')"
  by (simp add: get_connection_def)

lemma strip_blank: "list_all is_space p \<Longrightarrow> strip p = []"
  by (auto simp: strip_def list_all_iff dest: set_dropWhileD)











section \<open>Facts about the graph request\<close>

lemma fold_add_node_at:
  "g < length h \<Longrightarrow> fold (add_node_at g) ns h = h[g := fold add_node ns (h ! g)]"
proof (induction ns arbitrary: h)
  case Nil
  then show ?case by simp
next
  case (Cons n ns)
  then show ?case by (simp add: add_node_at_def)
qed

lemma lookup_valid:
  "valid_state st \<Longrightarrow> lookup_major_graphs st y t d = Some a \<Longrightarrow> a < length (store st)"
  by (auto simp: valid_state_def lookup_major_graphs_def split: option.splits)

lemma generate_a_list_unfold:
  assumes "valid_state st"
  shows "generate_a_list st d cs y t =
     (st\<lparr>store := store st @ [[], [], fold add_node (map normalize_code cs) (stored_graph st y t d)]\<rparr>,
      render (stored_graph st y t d) cs)"
proof (cases "lookup_major_graphs st y t d")
  case None
  then show ?thesis
    by (simp add: generate_a_list_def new_DiGraph_def copy_graph_def Let_def
        fold_add_node_at stored_graph_def render_def nth_append)
next
  case (Some a)
  with assms have "a < length (store st)" by (rule lookup_valid)
  with Some show ?thesis
    by (simp add: generate_a_list_def new_DiGraph_def copy_graph_def Let_def
        fold_add_node_at stored_graph_def render_def nth_append)
qed

lemma generate_a_list_frame:
  assumes "valid_state st" and "generate_a_list st d cs y t = (st', r)"
  shows "valid_state st'" and "major_graph_map st' = major_graph_map st"
    and "\<forall>a < length (store st). store st' ! a = store st ! a"
    and "stored_graph st' y' t' d' = stored_graph st y' t' d'"
    and "r = render (stored_graph st y t d) cs"
proof -
  from assms have st': "st' = st\<lparr>store := store st @
      [[], [], fold add_node (map normalize_code cs) (stored_graph st y t d)]\<rparr>"
    and r: "r = render (stored_graph st y t d) cs"
    by (simp_all add: generate_a_list_unfold)
  show "major_graph_map st' = major_graph_map st" by (simp add: st')
  show "valid_state st'" using assms(1) by (fastforce simp: st' valid_state_def)
  show "\<forall>a < length (store st). store st' ! a = store st ! a" by (simp add: st' nth_append)
  have lk: "lookup_major_graphs st' y' t' = lookup_major_graphs st y' t'"
    by (simp add: lookup_major_graphs_def st' split: option.splits)
  show "stored_graph st' y' t' d' = stored_graph st y' t' d'"
  proof (cases "lookup_major_graphs st y' t' d'")
    case None
    with lk show ?thesis by (simp add: stored_graph_def)
  next
    case (Some a)
    with assms(1) have "a < length (store st)" by (rule lookup_valid)
    with Some lk show ?thesis by (simp add: stored_graph_def st' nth_append)
  qed
  show "r = render (stored_graph st y t d) cs" by (rule r)
qed

lemma valid_initial_state: "valid_state initial_state"
  by (simp add: valid_state_def initial_state_def)

lemma valid_load_term:
  assumes "valid_state st"
  shows "valid_state (load_term key all_courses st)"
  unfolding valid_state_def
proof (intro allI impI)
  fix k m d a
  let ?gs = "build_graph_for_all_majors all_courses"
  let ?st = "load_term key all_courses st"
  assume a: "major_graph_map ?st k = Some m \<and> m d = Some a"
  have len: "length (store ?st) = length (store st) + length ?gs"
    by (simp add: load_term_def Let_def)
  show "a < length (store ?st)"
  proof (cases "k = key")
    case True
    with a have "map_of (zip (map fst ?gs) [length (store st) ..< length (store st) + length ?gs]) d
        = Some a"
      by (simp add: load_term_def Let_def)
    then have "(d, a) \<in> set (zip (map fst ?gs) [length (store st) ..< length (store st) + length ?gs])"
      by (rule map_of_SomeD)
    then have "a \<in> set [length (store st) ..< length (store st) + length ?gs]"
      by (rule set_zip_rightD)
    with len show ?thesis by simp
  next
    case False
    with a have "major_graph_map st k = Some m \<and> m d = Some a"
      by (simp add: load_term_def Let_def)
    with assms have "a < length (store st)" unfolding valid_state_def by blast
    with len show ?thesis by simp
  qed
qed

lemma valid_example_state: "valid_state example_state"
  unfolding example_state_def by (intro valid_load_term valid_initial_state)

section \<open>The examples, evaluated\<close>

lemma example_build:
  "build_graph_for_all_majors example_courses =
     [(''CISE'', [(''COP'' @ [CHR 0x0A] @ ''3502'', [''COP'' @ [CHR 0x0A] @ ''3503'']),
                  (''COP'' @ [CHR 0x0A] @ ''3503'', []),
                  (''MAC'' @ [CHR 0x0A] @ ''2311'', [''COP'' @ [CHR 0x0A] @ ''3503''])]),
      (''Math'', [(''MAC'' @ [CHR 0x0A] @ ''1147'', [''MAC'' @ [CHR 0x0A] @ ''2311'']),
                  (''MAC'' @ [CHR 0x0A] @ ''2311'', [])])]"
  by code_simp

lemma example_init:
  "init_db_for_file ''25'' ''fall'' example_courses (\<lambda>_. NoTable) = Inr example_dbs"
  by (simp add: init_db_for_file_def get_connection_def db_name_def example_dbs_def)


lemma example_no_table: "get_connection example_dbs (db_name ''24'' ''spring'') = Inr None"
  by (simp add: example_dbs_def get_connection_def db_name_def)

lemma example_request_simps:
  "year (example_request y t p) = Some y"
  "termName (example_request y t p) = Some t"
  "searchTerm (example_request y t p) = Some p"
  "year (page_request data n k) = year data"
  "termName (page_request data n k) = termName data"
  "searchTerm (page_request data n k) = searchTerm data"
  "limit_of (page_request data n k) = n"
  "offset_of (page_request data n k) = k"
  "phrase_of (page_request data n k) = phrase_of data"
  by (simp_all add: example_request_def page_request_def limit_of_def offset_of_def
      phrase_of_def)

section \<open>C1: search on a term without an index\<close>

text \<open>
  C1, as stated, fails. The only error the handler reports to the client as a missing
  term is the response "Missing 'year' or 'term' in request body" (status 400), and it
  is given when the year or the term is absent or empty, not when the term has no
  index. For a year and term that name no index, the query raises
  \<open>sqlite3.OperationalError\<close> (no such table), which the handler does not catch: the
  request ends in a server error (status 500).
\<close>

theorem search_unknown_term_server_error:
  "get_courses example_fts (\<lambda>_. NoTable) (example_request ''25'' ''fall'' ''COP'') =
     Inl (Uncaught (OperationalError ''no such table: courses_fts'')) \<and>
   get_courses example_fts (\<lambda>_. NoTable) (example_request ''25'' ''fall'' ''COP'') \<noteq>
     Inl MissingYearOrTerm \<and>
   status_code (Uncaught (OperationalError ''no such table: courses_fts'')) = 500"
  by (simp add: get_courses_def get_connection_def db_name_def example_request_def strip_def
      char_class_defs status_code_def)

text \<open>
  C1, amended: for every request whose year and term are present and not empty and
  whose term has no index (the database cannot be opened, or holds no \<open>courses_fts\<close>
  table), a search with a phrase that is not empty after stripping never succeeds and
  never gives the missing-year-or-term response: it ends in an exception that the
  handler does not catch (status 500). The exception is the one raised on opening the
  database when that fails (\<open>ValueError\<close> for a name with a NUL character, otherwise
  what the file system makes \<open>sqlite3\<close> raise), and \<open>OperationalError\<close> "no such table:
  courses_fts" when the database opens and has no table.
\<close>

theorem search_missing_index_fails:
  assumes "year data = Some y" and "termName data = Some t" and "y \<noteq> []" and "t \<noteq> []"
    and "\<not> has_index dbs (db_name y t)"
    and "strip (case searchTerm data of None \<Rightarrow> [] | Some s \<Rightarrow> s) \<noteq> []"
  shows "(\<exists>e. get_courses fts dbs data = Inl (Uncaught e) \<and> status_code (Uncaught e) = 500) \<and>
         get_courses fts dbs data \<noteq> Inl MissingYearOrTerm \<and>
         (\<forall>e. get_connection dbs (db_name y t) = Inl e \<longrightarrow>
              get_courses fts dbs data = Inl (Uncaught e)) \<and>
         (CHR 0x00 \<in> set (db_name y t) \<longrightarrow>
              get_courses fts dbs data = Inl (Uncaught (ValueError ''embedded null byte''))) \<and>
         (get_connection dbs (db_name y t) = Inr None \<longrightarrow>
              get_courses fts dbs data =
                Inl (Uncaught (OperationalError ''no such table: courses_fts'')))"
proof -
  from assms(6) have ph: "phrase_of data \<noteq> []" by (simp add: phrase_of_def)
  note q = get_courses_query [OF assms(1-4) ph, of fts dbs]
  from assms(5) consider e where "get_connection dbs (db_name y t) = Inl e"
    | "get_connection dbs (db_name y t) = Inr None"
    by (auto simp: has_index_def split: sum.splits option.splits)
  then show ?thesis
  proof cases
    case 1
    with q have "get_courses fts dbs data = Inl (Uncaught e)" by simp
    with 1 show ?thesis by (auto simp: status_code_def get_connection_nul)
  next
    case 2
    with q have "get_courses fts dbs data =
        Inl (Uncaught (OperationalError ''no such table: courses_fts''))" by simp
    with 2 show ?thesis by (auto simp: status_code_def get_connection_nul)
  qed
qed

text \<open>
  C1 at the example databases: the term (24, spring) has no database, and a year
  with a NUL character has no usable name.
\<close>

theorem search_missing_index_fails_witness:
  "\<not> has_index example_dbs (db_name ''24'' ''spring'') \<and>
   get_courses example_fts example_dbs (example_request ''24'' ''spring'' ''mac'') =
     Inl (Uncaught (OperationalError ''no such table: courses_fts'')) \<and>
   \<not> has_index example_dbs (db_name [CHR 0x00] ''fall'') \<and>
   get_courses example_fts example_dbs (example_request [CHR 0x00] ''fall'' ''mac'') =
     Inl (Uncaught (ValueError ''embedded null byte''))"
proof -
  have ph: "strip (case searchTerm (example_request y t ''mac'') of
                 None \<Rightarrow> [] | Some s \<Rightarrow> s) \<noteq> []" for y t
    by (simp add: example_request_def strip_def char_class_defs)
  have n1: "\<not> has_index example_dbs (db_name ''24'' ''spring'')"
    by (simp add: has_index_def example_no_table)
  have n2: "\<not> has_index example_dbs (db_name [CHR 0x00] ''fall'')"
    by (simp add: has_index_def get_connection_def db_name_def)
  have nul: "CHR 0x00 \<in> set (db_name [CHR 0x00] ''fall'')" by (simp add: db_name_def)
  have y1: "''24'' \<noteq> []" and t1: "''spring'' \<noteq> []" and y2: "[CHR 0x00] \<noteq> []"
    and t2: "''fall'' \<noteq> []" by simp_all
  from search_missing_index_fails [where fts = example_fts and dbs = example_dbs
      and data = "example_request ''24'' ''spring'' ''mac''",
      OF example_request_simps(1,2) y1 t1 n1 ph] example_no_table
  have "get_courses example_fts example_dbs (example_request ''24'' ''spring'' ''mac'') =
     Inl (Uncaught (OperationalError ''no such table: courses_fts''))" by blast
  moreover from search_missing_index_fails [where fts = example_fts and dbs = example_dbs
      and data = "example_request [CHR 0x00] ''fall'' ''mac''",
      OF example_request_simps(1,2) y2 t2 n2 ph] nul
  have "get_courses example_fts example_dbs (example_request [CHR 0x00] ''fall'' ''mac'') =
     Inl (Uncaught (ValueError ''embedded null byte''))" by blast
  ultimately show ?thesis using n1 n2 by blast
qed

section \<open>C2: the nodes of a department graph\<close>

text \<open>
  C2: the code does not do what the claim says, and what the docstring of
  \<open>build_graph_for_all_majors\<close> says with it ("edges based on prerequisites among
  courses in the same major"). The builder adds both ends of every edge as nodes and
  never looks up the department of a prerequisite. On the example courses the graph of
  the department CISE has the node \<open>MAC\n2311\<close> and the edge from it to \<open>COP\n3503\<close>,
  and the only course record with that normalised code is of the department Math.
\<close>

theorem build_graph_foreign_node:
  "build_graph_for_all_majors example_courses =
     [(''CISE'', [(''COP'' @ [CHR 0x0A] @ ''3502'', [''COP'' @ [CHR 0x0A] @ ''3503'']),
                  (''COP'' @ [CHR 0x0A] @ ''3503'', []),
                  (''MAC'' @ [CHR 0x0A] @ ''2311'', [''COP'' @ [CHR 0x0A] @ ''3503''])]),
      (''Math'', [(''MAC'' @ [CHR 0x0A] @ ''1147'', [''MAC'' @ [CHR 0x0A] @ ''2311'']),
                  (''MAC'' @ [CHR 0x0A] @ ''2311'', [])])] \<and>
   map (\<lambda>c. (dept_of c, normalize_code (code c))) example_courses =
     [(''CISE'', ''COP'' @ [CHR 0x0A] @ ''3502''),
      (''CISE'', ''COP'' @ [CHR 0x0A] @ ''3503''),
      (''Math'', ''MAC'' @ [CHR 0x0A] @ ''2311'')]"
  by code_simp

section \<open>C3: course-code normalisation\<close>

text \<open>
  C3, as stated, fails: normalisation is not idempotent. Normalising the normalised
  form of \<open>COP3502C\<close> gives \<open>COP\n\n3502\<close>, not \<open>COP\n3502\<close>.
\<close>

theorem normalize_code_not_idempotent:
  "normalize_code (normalize_code ''COP3502C'') \<noteq> normalize_code ''COP3502C''"
  by (simp add: normalize_code_def format_course_code_def rstrip_def section_chars_def)

text \<open>
  C3, amended: \<open>COP3502C\<close> and \<open>COP3502\<close> normalise to the same value
  \<open>COP\n3502\<close>; stripping the section suffix first does not change the normalised
  form (the stripping step is idempotent); and normalising an already normalised code
  inserts a second separator after its third character, so the result is one character
  longer and never the code itself.
\<close>

theorem normalize_code_properties:
  "normalize_code ''COP3502C'' = normalize_code ''COP3502'' \<and>
   normalize_code ''COP3502'' = ''COP'' @ [CHR 0x0A] @ ''3502'' \<and>
   normalize_code (rstrip section_chars c) = normalize_code c \<and>
   normalize_code (normalize_code c) = format_course_code (normalize_code c) \<and>
   length (normalize_code (normalize_code c)) = Suc (length (normalize_code c)) \<and>
   normalize_code (normalize_code c) \<noteq> normalize_code c"
proof -
  have a: "normalize_code ''COP3502C'' = ''COP'' @ [CHR 0x0A] @ ''3502''"
    by (simp add: normalize_code_def format_course_code_def rstrip_def section_chars_def)
  have b: "normalize_code ''COP3502'' = ''COP'' @ [CHR 0x0A] @ ''3502''"
    by (simp add: normalize_code_def format_course_code_def rstrip_def section_chars_def)
  have c: "normalize_code (rstrip section_chars c) = normalize_code c"
    by (simp add: normalize_code_def rstrip_idem)
  have d: "normalize_code (normalize_code c) = format_course_code (normalize_code c)"
    using rstrip_normalize_code [of c] by (simp add: normalize_code_def)
  then have e: "length (normalize_code (normalize_code c)) = Suc (length (normalize_code c))"
    by (simp add: length_format_course_code)
  then have f: "normalize_code (normalize_code c) \<noteq> normalize_code c"
    by (metis n_not_Suc_n)
  from a b c d e f show ?thesis by (simp only: simp_thms)
qed

section \<open>C4: prerequisite extraction\<close>

text \<open>
  C4, as stated, fails: the separator of the pattern is \<open>\s\<close>, any whitespace
  character, not the space alone. From \<open>ABC<TAB>1234\<close> the code extracts a candidate
  that is not of the shape "three capitals, one space, four digits".
\<close>

theorem clean_prereq_tab_separator:
  "set (clean_prereq (''ABC'' @ [CHR 0x09] @ ''1234'')) \<noteq>
   {t. sublist t (''ABC'' @ [CHR 0x09] @ ''1234'') \<and> code_shape is_blank t}"
proof -
  have "''ABC'' @ [CHR 0x09] @ ''1234'' \<in> set (clean_prereq (''ABC'' @ [CHR 0x09] @ ''1234''))"
    by (simp add: char_class_defs)
  moreover have "\<not> code_shape is_blank (''ABC'' @ [CHR 0x09] @ ''1234'')"
    by (simp add: char_class_defs)
  ultimately show ?thesis by blast
qed

text \<open>
  C4, amended: for every prerequisites string the extracted candidates are exactly its
  substrings of the shape "three capitals, one whitespace character, four digits"; in
  particular every substring with a space as separator is extracted, a string with no
  substring of the shape yields the empty list, and extraction is a total function
  (no input makes it fail).
\<close>

theorem clean_prereq_set:
  "set (clean_prereq s) = {t. sublist t s \<and> code_shape is_space t} \<and>
   {t. sublist t s \<and> code_shape is_blank t} \<subseteq> set (clean_prereq s)"
proof -
  have "set (clean_prereq s) = {t. sublist t s \<and> code_shape is_space t}"
    using clean_prereq_sound clean_prereq_occurrence by blast
  moreover have "{t. sublist t s \<and> code_shape is_blank t} \<subseteq> set (clean_prereq s)"
    using clean_prereq_occurrence code_shape_blank_space by blast
  ultimately show ?thesis by (simp only: simp_thms)
qed

section \<open>C5: exact matches first, then relevance\<close>




section \<open>C6: no self-loop\<close>

text \<open>
  C6: for every collection of course records, no graph produced by
  \<open>build_graph_for_all_majors\<close> has an edge from a node to itself (an edge is added
  only when the two normalised codes differ).
\<close>

theorem build_graph_no_self_loop:
  "\<forall>(dept, G) \<in> set (build_graph_for_all_majors all_courses).
      \<forall>n. (n, n) \<notin> set (edges G)"
proof (intro ballI allI, clarify)
  fix dept G n
  assume "(dept, G) \<in> set (build_graph_for_all_majors all_courses)"
    and "(n, n) \<in> set (edges G)"
  from build_graph_edge [OF this] show False by blast
qed

text \<open>
  C6 at the example: the graph of the department CISE is among the graphs built, and
  it has no self-loop.
\<close>

theorem build_graph_no_self_loop_witness:
  "(''CISE'', [(''COP'' @ [CHR 0x0A] @ ''3502'', [''COP'' @ [CHR 0x0A] @ ''3503'']),
               (''COP'' @ [CHR 0x0A] @ ''3503'', []),
               (''MAC'' @ [CHR 0x0A] @ ''2311'', [''COP'' @ [CHR 0x0A] @ ''3503''])])
     \<in> set (build_graph_for_all_majors example_courses) \<and>
   (\<forall>n. (n, n) \<notin> set (edges
       [(''COP'' @ [CHR 0x0A] @ ''3502'', [''COP'' @ [CHR 0x0A] @ ''3503'']),
        (''COP'' @ [CHR 0x0A] @ ''3503'', []),
        (''MAC'' @ [CHR 0x0A] @ ''2311'', [''COP'' @ [CHR 0x0A] @ ''3503''])]))"
proof -
  have mem: "(''CISE'', [(''COP'' @ [CHR 0x0A] @ ''3502'', [''COP'' @ [CHR 0x0A] @ ''3503'']),
               (''COP'' @ [CHR 0x0A] @ ''3503'', []),
               (''MAC'' @ [CHR 0x0A] @ ''2311'', [''COP'' @ [CHR 0x0A] @ ''3503''])])
     \<in> set (build_graph_for_all_majors example_courses)"
    by (simp add: example_build)
  with build_graph_no_self_loop [of example_courses] show ?thesis by blast
qed

section \<open>C7: rendering does not change the stored graph\<close>

text \<open>
  C7: in a valid state, after \<open>generate_a_list\<close> for a department with the completed
  courses \<open>c1\<close> and then with \<open>c2\<close>, the stored graph of the department, the map of
  stored graphs and every object allocated before are unchanged, and a third call
  with \<open>c1\<close> returns the result of the first.
\<close>

theorem generate_a_list_does_not_mutate:
  assumes "valid_state st"
    and "generate_a_list st d c1 y t = (s1, r1)"
    and "generate_a_list s1 d c2 y t = (s2, r2)"
    and "generate_a_list s2 d c1 y t = (s3, r3)"
  shows "r3 = r1 \<and> stored_graph s2 y t d = stored_graph st y t d \<and>
         major_graph_map s2 = major_graph_map st \<and>
         (\<forall>a < length (store st). store s2 ! a = store st ! a)"
proof -
  note f1 = generate_a_list_frame [OF assms(1,2)]
  note f2 = generate_a_list_frame [OF f1(1) assms(3)]
  note f3 = generate_a_list_frame [OF f2(1) assms(4)]
  have "stored_graph s2 y t d = stored_graph st y t d" by (simp add: f1(4) f2(4))
  moreover from this have "r3 = r1" by (simp add: f3(5) f1(5))
  moreover have "major_graph_map s2 = major_graph_map st" by (simp add: f1(2) f2(2))
  moreover have "\<forall>a < length (store st). store s2 ! a = store st ! a"
  proof (intro allI impI)
    fix a assume a: "a < length (store st)"
    then have "store s1 ! a = store st ! a" using f1(3) by blast
    moreover from a assms(1,2) have "a < length (store s1)"
      by (auto simp: generate_a_list_unfold)
    then have "store s2 ! a = store s1 ! a" using f2(3) by blast
    ultimately show "store s2 ! a = store st ! a" by simp
  qed
  ultimately show ?thesis by blast
qed

text \<open>
  C7 at the state loaded from the example courses.
\<close>

theorem generate_a_list_does_not_mutate_witness:
  "valid_state example_state \<and>
   out_nodes (snd (generate_a_list example_state ''CISE'' [''COP3502C''] (Some ''25'') (Some ''fall'')))
     = [(''COP'' @ [CHR 0x0A] @ ''3502'', ''selected''),
        (''COP'' @ [CHR 0x0A] @ ''3503'', ''not_selected''),
        (''MAC'' @ [CHR 0x0A] @ ''2311'', ''not_selected'')] \<and>
   snd (generate_a_list
          (fst (generate_a_list
             (fst (generate_a_list example_state ''CISE'' [''COP3502C''] (Some ''25'') (Some ''fall'')))
             ''CISE'' [''MAC2311'', ''EEL3701C''] (Some ''25'') (Some ''fall'')))
          ''CISE'' [''COP3502C''] (Some ''25'') (Some ''fall''))
     = snd (generate_a_list example_state ''CISE'' [''COP3502C''] (Some ''25'') (Some ''fall''))"
proof -
  have r: "out_nodes (snd (generate_a_list example_state ''CISE'' [''COP3502C''] (Some ''25'') (Some ''fall'')))
     = [(''COP'' @ [CHR 0x0A] @ ''3502'', ''selected''),
        (''COP'' @ [CHR 0x0A] @ ''3503'', ''not_selected''),
        (''MAC'' @ [CHR 0x0A] @ ''2311'', ''not_selected'')]"
    by code_simp
  from generate_a_list_does_not_mutate [OF valid_example_state
      prod.collapse [symmetric] prod.collapse [symmetric] prod.collapse [symmetric],
      of "''CISE''" "[''COP3502C'']" "Some ''25''" "Some ''fall''" "[''MAC2311'', ''EEL3701C'']"]
  show ?thesis using valid_example_state r by blast
qed

section \<open>C8: pages concatenate\<close>




section \<open>C9: the empty phrase\<close>

text \<open>
  C9: for every term (a year and a term name, both present and not empty, as the
  handler requires of a request that names a term), every page size and every offset, a
  search with the empty or absent phrase returns the empty list and no error, whatever
  the databases hold and whatever the engine does.
\<close>

theorem search_blank_phrase_empty:
  assumes "year data = Some y" and "termName data = Some t" and "y \<noteq> []" and "t \<noteq> []"
    and "searchTerm data = None \<or> searchTerm data = Some []"
  shows "get_courses fts dbs data = Inr []"
  using assms by (intro get_courses_blank [of _ y t]) (auto simp: phrase_of_def strip_def)

text \<open>
  C9 at the example index.
\<close>

theorem search_blank_phrase_empty_witness:
  "get_courses example_fts example_dbs (example_request ''25'' ''fall'' []) = Inr []"
proof -
  have y: "''25'' \<noteq> []" and t: "''fall'' \<noteq> []" by simp_all
  have p: "searchTerm (example_request ''25'' ''fall'' []) = None \<or>
           searchTerm (example_request ''25'' ''fall'' []) = Some []"
    by (simp add: example_request_def)
  show ?thesis
    by (rule search_blank_phrase_empty [where data = "example_request ''25'' ''fall'' []",
          OF example_request_simps(1,2) y t p])
qed

section \<open>C10: a phrase of whitespace\<close>

text \<open>
  C10, as stated, fails for a year/term pair with an empty component: the phrase is
  stripped first, but year and term are checked before the stripped phrase is, so a
  phrase of three spaces with an empty term name gets the missing-year-or-term error.
\<close>

theorem search_whitespace_phrase_missing_term:
  "get_courses example_fts (\<lambda>_. NoTable) (example_request ''25'' [] ''   '') = Inl MissingYearOrTerm"
  by (simp add: get_courses_def example_request_def)

text \<open>
  C10, amended: for every phrase made of whitespace characters only (the empty string
  included) and every year and term that are present and not empty, the search returns
  the empty list and raises no error, whatever the databases hold, also when no
  database exists at all.
\<close>

theorem search_whitespace_phrase_empty:
  assumes "year data = Some y" and "termName data = Some t" and "y \<noteq> []" and "t \<noteq> []"
    and "searchTerm data = Some p" and "list_all is_space p"
  shows "get_courses fts dbs data = Inr [] \<and> get_courses fts (\<lambda>_. NoTable) data = Inr []"
  using assms by (auto intro!: get_courses_blank [of _ y t] simp: phrase_of_def strip_blank)

text \<open>
  C10 at a phrase of a space, a tab and a space, for the term (99, winter), which has
  no database.
\<close>

theorem search_whitespace_phrase_empty_witness:
  "list_all is_space ('' '' @ [CHR 0x09] @ '' '') \<and>
   get_courses example_fts example_dbs
     (example_request ''99'' ''winter'' ('' '' @ [CHR 0x09] @ '' '')) = Inr [] \<and>
   get_courses example_fts (\<lambda>_. NoTable)
     (example_request ''99'' ''winter'' ('' '' @ [CHR 0x09] @ '' '')) = Inr []"
proof (rule conjI)
  show sp: "list_all is_space ('' '' @ [CHR 0x09] @ '' '')"
    by (simp add: char_class_defs)
  have y: "''99'' \<noteq> []" and t: "''winter'' \<noteq> []" by simp_all
  show "get_courses example_fts example_dbs
     (example_request ''99'' ''winter'' ('' '' @ [CHR 0x09] @ '' '')) = Inr [] \<and>
   get_courses example_fts (\<lambda>_. NoTable)
     (example_request ''99'' ''winter'' ('' '' @ [CHR 0x09] @ '' '')) = Inr []"
    by (rule search_whitespace_phrase_empty [where
          data = "example_request ''99'' ''winter'' ('' '' @ [CHR 0x09] @ '' '')",
          OF example_request_simps(1,2) y t example_request_simps(3) sp])
qed

end
